theory Spec2Isabelle
  imports Main "HOL-Library.Sublist" "HOL-Library.Multiset"
begin

section \<open>The job wait poller (init-job-test/check.py)\<close>

subsection \<open>Data model\<close>

text \<open>
  A job resource as the poller reads it: \<open>job.metadata.name\<close>, and \<open>job.status\<close> with its
  optional \<open>conditions\<close> key and its \<open>succeeded\<close> count. \<open>conditions = None\<close> is the case
  \<open>'conditions' not in job.status\<close>. \<open>cond_status\<close> holds \<open>str(condition.status)\<close>.
\<close>

record condition =
  cond_type :: string
  cond_status :: string

record job_status =
  conditions :: "condition list option"
  succeeded :: int

record job =
  metadata_name :: string
  status :: job_status

text \<open>
  The lines the script prints, kept structured: one constructor for each \<open>print\<close> call of
  check.py, carrying the values the format string receives.
\<close>

datatype message =
    Checking_job string
  | No_conditions string string int
  | Not_complete string string int
  | Job_failed string
  | No_jobs
  | Checking_jobs nat
  | Job_succeeded string
  | Still_waiting
  | Failed_jobs
  | All_completed

text \<open>
  What the process does to the outside world, in order: printing a line, \<open>job.pprint()\<close>,
  \<open>time.sleep\<close>, and the status query \<open>client.get\<close> for a job name. The type \<open>'d\<close> is the type
  of the delay handed to \<open>time.sleep\<close> (a Python float, passed on unchanged).
\<close>

datatype 'd event =
    Print message
  | PPrint job
  | Sleep 'd
  | Get string

record 'd config =
  RETRIES :: int
  RETRY_DELAY :: 'd

text \<open>
  Modelled from the spec: the \<open>kubernetes\<close> module with \<open>KubernetesAPIClient\<close> is not among
  the sources, so the job status source is a parameter. A query either fails (unreachable,
  timeout or not found) or returns the job's current resource; the answer may change from
  one call to the next, so it depends on the number of status queries made before it.
  A failing \<open>client.get\<close> raises.
\<close>

datatype fetch_error = Unreachable | Timeout | NotFound

type_synonym client = "nat \<Rightarrow> string \<Rightarrow> fetch_error + job"

datatype outcome = Exited int | Returned | Raised fetch_error

text \<open>The exit status of the interpreter: 0 when \<open>main\<close> returns, 1 on an uncaught exception.\<close>

fun exit_code :: "outcome \<Rightarrow> int" where
  "exit_code (Exited c) = c"
| "exit_code Returned = 0"
| "exit_code (Raised e) = 1"

subsection \<open>check\_success\<close>

definition is_condition_complete :: "condition \<Rightarrow> bool" where
  "is_condition_complete c \<longleftrightarrow> cond_type c = ''Complete'' \<and> cond_status c = ''True''"

text \<open>
  \<open>check_success(client, namespace, job, retries)\<close>: the lines printed, and the pair
  \<open>(success, retries)\<close> returned. The client argument is never used by the source.
  \<open>filter\<close> is Python 2's and returns a list, empty exactly when \<open>not complete\<close>;
  \<open>job.status.succeeded\<close> is truthy when it is not 0.
\<close>

definition check_success :: "string \<Rightarrow> job \<Rightarrow> int \<Rightarrow> 'd event list \<times> bool \<times> int" where
  "check_success namespace job retries =
     (case conditions (status job) of
        None \<Rightarrow>
          ([Print (Checking_job (metadata_name job)),
            Print (No_conditions namespace (metadata_name job) retries)],
           False, retries - 1)
      | Some cs \<Rightarrow>
          (let complete = filter is_condition_complete cs in
           if complete = [] then
             ([Print (Checking_job (metadata_name job)),
               Print (Not_complete namespace (metadata_name job) retries)],
              False, retries - 1)
           else if succeeded (status job) \<noteq> 0 then
             ([Print (Checking_job (metadata_name job))], True, retries)
           else
             ([Print (Checking_job (metadata_name job)),
               Print (Job_failed (metadata_name job))],
              False, 0)))"

subsection \<open>The polling loop of main\<close>

text \<open>
  The body of \<open>for job, retries in items\<close>, acting on the lists \<open>failed\<close> and \<open>remaining\<close>
  and on the output written so far. \<open>retries is 0\<close> compares with the small integer 0.
\<close>

definition classify_step ::
  "string \<Rightarrow> job \<times> int \<Rightarrow> job list \<times> (job \<times> int) list \<times> 'd event list
     \<Rightarrow> job list \<times> (job \<times> int) list \<times> 'd event list" where
  "classify_step namespace item acc =
     (case item of (job, retries) \<Rightarrow>
      case acc of (fl, remaining, out) \<Rightarrow>
      case check_success namespace job retries of (msgs, success, retries') \<Rightarrow>
        if success then
          (fl, remaining, out @ msgs @ [Print (Job_succeeded (metadata_name job))])
        else if retries' = 0 then (fl @ [job], remaining, out @ msgs)
        else (fl, remaining @ [(job, retries')], out @ msgs))"

text \<open>The variables of the \<open>while\<close> loop, the number of status queries made, and the output.\<close>

record 'd poll_state =
  items :: "(job \<times> int) list"
  failed :: "job list"
  calls :: nat
  trace :: "'d event list"

text \<open>
  \<open>for job, retries in remaining\<close>: every remaining job is fetched again by name and
  appended to \<open>items\<close> with its counter. A failing query raises out of the loop.
\<close>

fun refresh ::
  "client \<Rightarrow> (job \<times> int) list \<Rightarrow> 'd poll_state
     \<Rightarrow> (fetch_error \<times> 'd event list) + 'd poll_state" where
  "refresh get [] s = Inr s"
| "refresh get ((job, retries) # rest) s =
     (case get (calls s) (metadata_name job) of
        Inl e \<Rightarrow> Inl (e, trace s @ [Get (metadata_name job)])
      | Inr refreshed_job \<Rightarrow>
          refresh get rest
            (s\<lparr>items := items s @ [(refreshed_job, retries)],
               calls := Suc (calls s),
               trace := trace s @ [Get (metadata_name job)]\<rparr>))"

text \<open>One pass through the body of \<open>while items\<close>.\<close>

definition poll_round ::
  "'d config \<Rightarrow> string \<Rightarrow> client \<Rightarrow> 'd poll_state
     \<Rightarrow> (fetch_error \<times> 'd event list) + 'd poll_state" where
  "poll_round cfg namespace get s =
     (case fold (classify_step namespace) (items s)
             (failed s, [], trace s @ [Print (Checking_jobs (length (items s)))]) of
        (fl, remaining, out) \<Rightarrow>
          refresh get remaining
            (s\<lparr>items := [],
               failed := fl,
               trace := (if remaining \<noteq> []
                         then out @ [Print Still_waiting, Sleep (RETRY_DELAY cfg)]
                         else out)\<rparr>))"

text \<open>\<open>while items\<close>. The loop need not end, so not returning is the value \<open>None\<close>.\<close>

partial_function (option) poll_loop ::
  "'d config \<Rightarrow> string \<Rightarrow> client \<Rightarrow> 'd poll_state
     \<Rightarrow> ((fetch_error \<times> 'd event list) + 'd poll_state) option" where
  "poll_loop cfg namespace get s =
     (if items s = [] then Some (Inr s)
      else case poll_round cfg namespace get s of
             Inl e \<Rightarrow> Some (Inl e)
           | Inr s' \<Rightarrow> poll_loop cfg namespace get s')"

declare poll_loop.simps [code]

text \<open>
  \<open>for job in failed: job.pprint(); sys.exit(1)\<close>: the exit is inside the loop body, so the
  loop is left during its first pass.
\<close>

fun report_failed :: "job list \<Rightarrow> 'd event list \<times> outcome" where
  "report_failed [] = ([], Returned)"
| "report_failed (job # rest) = ([PPrint job], Exited 1)"

text \<open>
  \<open>main\<close> from line 95 on, given \<open>jobs['items']\<close>, the answer of the discovery query:
  the output of the whole run and how it ends.
\<close>

definition main ::
  "'d config \<Rightarrow> string \<Rightarrow> client \<Rightarrow> job list \<Rightarrow> ('d event list \<times> outcome) option" where
  "main cfg namespace get jobs_items =
     (if map (\<lambda>item. (item, RETRIES cfg)) jobs_items = [] then
        Some ([Print No_jobs], Exited 0)
      else
        case poll_loop cfg namespace get
               \<lparr>items = map (\<lambda>item. (item, RETRIES cfg)) jobs_items,
                failed = [], calls = 0, trace = []\<rparr> of
          None \<Rightarrow> None
        | Some (Inl (e, out)) \<Rightarrow> Some (out, Raised e)
        | Some (Inr s) \<Rightarrow>
            if failed s \<noteq> [] then
              (case report_failed (failed s) of
                 (msgs, oc) \<Rightarrow> Some (trace s @ [Print Failed_jobs] @ msgs, oc))
            else Some (trace s @ [Print All_completed], Returned))"

text \<open>The loop variables on entry to \<open>while items\<close>: every discovered job with \<open>RETRIES\<close>.\<close>

definition initial :: "'d config \<Rightarrow> job list \<Rightarrow> 'd poll_state" where
  "initial cfg jobs_items =
     \<lparr>items = map (\<lambda>item. (item, RETRIES cfg)) jobs_items,
      failed = [], calls = 0, trace = []\<rparr>"

text \<open>
  The loop cut off after \<open>n\<close> passes: the state at the head of the loop once \<open>n\<close> passes are
  done (or the loop has ended before), or the error raised on the way.
\<close>

fun rounds ::
  "'d config \<Rightarrow> string \<Rightarrow> client \<Rightarrow> nat \<Rightarrow> 'd poll_state
     \<Rightarrow> (fetch_error \<times> 'd event list) + 'd poll_state" where
  "rounds cfg namespace get 0 s = Inr s"
| "rounds cfg namespace get (Suc n) s =
     (if items s = [] then Inr s
      else case poll_round cfg namespace get s of
             Inl e \<Rightarrow> Inl e
           | Inr s' \<Rightarrow> rounds cfg namespace get n s')"

subsection \<open>Notions used to state the properties\<close>

text \<open>The job has a condition of type Complete with status True.\<close>

definition job_complete :: "job \<Rightarrow> bool" where
  "job_complete job \<longleftrightarrow>
     (case conditions (status job) of
        None \<Rightarrow> False
      | Some cs \<Rightarrow> filter is_condition_complete cs \<noteq> [])"

text \<open>The names of the jobs of the active set, and the names reported as succeeded.\<close>

definition names :: "(job \<times> int) list \<Rightarrow> string list" where
  "names its = map (\<lambda>item. metadata_name (fst item)) its"



text \<open>Jobs in the three states a status query can show, for the concrete runs below.\<close>

definition pending_job :: "string \<Rightarrow> job" where
  "pending_job n = \<lparr>metadata_name = n, status = \<lparr>conditions = None, succeeded = 0\<rparr>\<rparr>"

definition complete_job :: "string \<Rightarrow> int \<Rightarrow> job" where
  "complete_job n k =
     \<lparr>metadata_name = n,
      status = \<lparr>conditions = Some [\<lparr>cond_type = ''Complete'', cond_status = ''True''\<rparr>],
                succeeded = k\<rparr>\<rparr>"


definition fails :: "job \<times> int \<Rightarrow> bool" where
  "fails item \<longleftrightarrow>
     (job_complete (fst item) \<and> succeeded (status (fst item)) = 0) \<or>
     (\<not> job_complete (fst item) \<and> snd item - 1 = 0)"

definition stays :: "job \<times> int \<Rightarrow> bool" where
  "stays item \<longleftrightarrow> \<not> job_complete (fst item) \<and> snd item - 1 \<noteq> 0"

definition decremented :: "job \<times> int \<Rightarrow> job \<times> int" where
  "decremented item = (fst item, snd item - 1)"

text \<open>The lines one pass of the loop body prints for an item.\<close>

definition step_out :: "string \<Rightarrow> job \<times> int \<Rightarrow> 'd event list" where
  "step_out namespace item =
     (case check_success namespace (fst item) (snd item) of
        (msgs, success, retries') \<Rightarrow>
          if success then msgs @ [Print (Job_succeeded (metadata_name (fst item)))]
          else msgs)"


text \<open>The loop has ended: an error was raised, or the active set is empty.\<close>

fun finished :: "(fetch_error \<times> 'd event list) + 'd poll_state \<Rightarrow> bool" where
  "finished (Inl e) = True"
| "finished (Inr s) = (items s = [])"







section \<open>Dirty modules (ci.py)\<close>

text \<open>
  \<open>os.path.join\<close> for two components on POSIX, where \<open>os.path.sep\<close> is \<open>/\<close>: an absolute
  second component replaces the first, and a separator is put between the two unless the
  first is empty or ends with one.
\<close>

definition path_sep :: char where
  "path_sep = CHR ''/''"

definition path_join :: "string \<Rightarrow> string \<Rightarrow> string" where
  "path_join a b =
     (if b \<noteq> [] \<and> hd b = path_sep then b
      else if a = [] \<or> last a = path_sep then a @ b
      else a @ [path_sep] @ b)"

text \<open>\<open>mod, _ = f.split(os.path.sep, 1)\<close>: the part of \<open>f\<close> before its first separator.\<close>

definition module_of :: "string \<Rightarrow> string" where
  "module_of f = takeWhile (\<lambda>c. c \<noteq> path_sep) f"



section \<open>Classification of one job\<close>

lemma filter_complete_nonempty:
  "filter is_condition_complete cs \<noteq> [] \<longleftrightarrow>
     (\<exists>c\<in>set cs. cond_type c = ''Complete'' \<and> cond_status c = ''True'')"
  by (simp add: filter_empty_conv is_condition_complete_def)

text \<open>
  C1. A job whose status has a condition of type Complete with status True, and whose
  succeeded count is positive, is classified as succeeded whatever the attempts counter
  is: \<open>check_success\<close> returns \<open>True\<close> with the counter unchanged, and the loop body puts the
  job neither on the failed list nor among the remaining jobs.
\<close>

theorem check_success_succeeded:
  assumes "conditions (status job) = Some cs"
    and "\<exists>c\<in>set cs. cond_type c = ''Complete'' \<and> cond_status c = ''True''"
    and "0 < succeeded (status job)"
  shows "check_success namespace job retries =
           ([Print (Checking_job (metadata_name job))], True, retries) \<and>
         classify_step namespace (job, retries) (fl, remaining, out) =
           (fl, remaining,
            out @ [Print (Checking_job (metadata_name job)),
                   Print (Job_succeeded (metadata_name job))])"
proof -
  from assms(2) have ne: "filter is_condition_complete cs \<noteq> []"
    by (simp only: filter_complete_nonempty)
  with assms(1,3) show ?thesis
    by (simp add: check_success_def classify_step_def)
qed

theorem check_success_succeeded_witness:
  "check_success ''ns'' (complete_job ''a'' 1) 7 =
     ([Print (Checking_job ''a'') :: unit event], True, 7) \<and>
   classify_step ''ns'' (complete_job ''a'' 1, 7) ([], [], []) =
     ([], [], [Print (Checking_job ''a''), Print (Job_succeeded ''a'') :: unit event])"
  using check_success_succeeded
    [of "complete_job ''a'' 1" "[\<lparr>cond_type = ''Complete'', cond_status = ''True''\<rparr>]"
        "''ns''" 7 "[]" "[]" "[]"]
  by (simp add: complete_job_def)

text \<open>
  C2. A job whose status has a condition of type Complete with status True, and whose
  succeeded count is zero, is classified as failed at once: \<open>check_success\<close> returns
  \<open>False\<close> with the counter 0 whatever the counter was, and the loop body appends the job to
  the failed list and not to the remaining jobs, so it is not fetched again.
\<close>

theorem check_success_failed:
  assumes "conditions (status job) = Some cs"
    and "\<exists>c\<in>set cs. cond_type c = ''Complete'' \<and> cond_status c = ''True''"
    and "succeeded (status job) = 0"
  shows "check_success namespace job retries =
           ([Print (Checking_job (metadata_name job)),
             Print (Job_failed (metadata_name job))], False, 0) \<and>
         classify_step namespace (job, retries) (fl, remaining, out) =
           (fl @ [job], remaining,
            out @ [Print (Checking_job (metadata_name job)),
                   Print (Job_failed (metadata_name job))])"
proof -
  from assms(2) have ne: "filter is_condition_complete cs \<noteq> []"
    by (simp only: filter_complete_nonempty)
  with assms(1,3) show ?thesis
    by (simp add: check_success_def classify_step_def)
qed

theorem check_success_failed_witness:
  "check_success ''ns'' (complete_job ''a'' 0) 7 =
     ([Print (Checking_job ''a''), Print (Job_failed ''a'') :: unit event], False, 0) \<and>
   classify_step ''ns'' (complete_job ''a'' 0, 7) ([], [], []) =
     ([complete_job ''a'' 0], [],
      [Print (Checking_job ''a''), Print (Job_failed ''a'') :: unit event])"
  using check_success_failed
    [of "complete_job ''a'' 0" "[\<lparr>cond_type = ''Complete'', cond_status = ''True''\<rparr>]"
        "''ns''" 7 "[]" "[]" "[]"]
  by (simp add: complete_job_def)

text \<open>
  C3. A job observed in a non-terminal state (its status has no conditions, or it has
  conditions and none of them has type Complete with status True) is classified as
  pending: \<open>check_success\<close> returns \<open>False\<close> with the counter decremented by exactly 1, and
  while that result is positive the loop body keeps the job, with the decremented
  counter, among the remaining jobs and off the failed list.
\<close>

theorem check_success_pending:
  assumes "conditions (status job) = None \<or>
           (\<exists>cs. conditions (status job) = Some cs \<and>
                 \<not> (\<exists>c\<in>set cs. cond_type c = ''Complete'' \<and> cond_status c = ''True''))"
  shows "\<exists>msgs. check_success namespace job retries = (msgs, False, retries - 1) \<and>
           (0 < retries - 1 \<longrightarrow>
              classify_step namespace (job, retries) (fl, remaining, out) =
                (fl, remaining @ [(job, retries - 1)], out @ msgs))"
  using assms
proof
  assume "conditions (status job) = None"
  then show ?thesis
    by (simp add: check_success_def classify_step_def)
next
  assume "\<exists>cs. conditions (status job) = Some cs \<and>
                 \<not> (\<exists>c\<in>set cs. cond_type c = ''Complete'' \<and> cond_status c = ''True'')"
  then obtain cs where cs: "conditions (status job) = Some cs"
    and "\<not> (\<exists>c\<in>set cs. cond_type c = ''Complete'' \<and> cond_status c = ''True'')"
    by blast
  then have "filter is_condition_complete cs = []"
    using filter_complete_nonempty [of cs] by blast
  with cs show ?thesis
    by (simp add: check_success_def classify_step_def)
qed

theorem check_success_pending_witness:
  "\<exists>msgs. check_success ''ns'' (pending_job ''a'') 7 = (msgs :: unit event list, False, 6) \<and>
     classify_step ''ns'' (pending_job ''a'', 7) ([], [], []) =
       ([], [(pending_job ''a'', 6)], msgs)"
  using check_success_pending [of "pending_job ''a''" "''ns''" 7 "[]" "[]" "[]"]
  by (simp add: pending_job_def)

section \<open>One pass of the loop\<close>

lemma classify_step_cases:
  "classify_step namespace item (fl, remaining, out) =
     (if fails item then fl @ [fst item] else fl,
      if stays item then remaining @ [decremented item] else remaining,
      out @ step_out namespace item)"
  by (cases item)
     (simp add: classify_step_def check_success_def step_out_def fails_def stays_def
        decremented_def job_complete_def Let_def split: option.split)

lemma fold_classify_step:
  "fold (classify_step namespace) its (fl, remaining, out) =
     (fl @ map fst (filter fails its),
      remaining @ map decremented (filter stays its),
      out @ concat (map (step_out namespace) its))"
proof (induction its arbitrary: fl remaining out)
  case Nil
  show ?case by simp
next
  case (Cons item its)
  show ?case
    by (simp only: fold_simps classify_step_cases Cons.IH) simp
qed





section \<open>The run as a whole\<close>

text \<open>
  C6. When the discovery query returns no job, the run prints that there are no jobs and
  exits with status 0: its whole output is that one line, so there is no polling round,
  no status query and no sleep.
\<close>

theorem no_jobs_exit:
  "main cfg namespace get [] = Some ([Print No_jobs], Exited 0) \<and>
   exit_code (Exited 0) = 0"
  by (simp add: main_def)

section \<open>The loop: passes, counters and termination\<close>

lemma poll_loop_finished:
  "finished res \<Longrightarrow> rounds cfg namespace get n s = res \<Longrightarrow>
     poll_loop cfg namespace get s = Some res"
proof (induction n arbitrary: s)
  case 0
  then show ?case by (auto simp: poll_loop.simps)
next
  case (Suc n)
  show ?case
  proof (cases "items s = []")
    case True
    with Suc.prems show ?thesis by (auto simp: poll_loop.simps)
  next
    case False
    show ?thesis
    proof (cases "poll_round cfg namespace get s")
      case (Inl e)
      with False Suc.prems show ?thesis
        by (subst poll_loop.simps) auto
    next
      case (Inr s1)
      with False Suc.prems have "rounds cfg namespace get n s1 = res" by simp
      from Suc.IH [OF Suc.prems(1) this] Inr False show ?thesis
        by (subst poll_loop.simps) simp
    qed
  qed
qed








lemma rounds_Suc_last:
  "rounds cfg namespace get n s = Inr s1 \<Longrightarrow>
     rounds cfg namespace get (Suc n) s =
       (if items s1 = [] then Inr s1 else poll_round cfg namespace get s1)"
proof (induction n arbitrary: s)
  case 0
  then show ?case by (simp split: sum.split)
next
  case (Suc n)
  show ?case
  proof (cases "items s = []")
    case True
    with Suc.prems show ?thesis by simp
  next
    case False
    with Suc.prems obtain s2 where s2: "poll_round cfg namespace get s = Inr s2"
      "rounds cfg namespace get n s2 = Inr s1"
      by (auto split: sum.splits)
    from Suc.IH [OF s2(2)] s2(1) False show ?thesis
      by (simp del: rounds.simps(2) add: rounds.simps(2) [of _ _ _ "Suc n"])
  qed
qed





section \<open>Names and verdicts\<close>











lemma rounds_empty: "items s = [] \<Longrightarrow> rounds cfg namespace get n s = Inr s"
  by (cases n) simp_all




section \<open>Termination of the run\<close>













section \<open>Every job gets one verdict\<close>









section \<open>The report at the end of the run\<close>

text \<open>
  When the loop ends normally the run exits with status 1 after the details of the first
  failed job, or returns after the line of overall success when no job failed.
\<close>

lemma main_report:
  assumes "poll_loop cfg namespace get (initial cfg jobs) = Some (Inr s)" and "jobs \<noteq> []"
  shows "main cfg namespace get jobs =
           (if failed s \<noteq> []
            then Some (trace s @ [Print Failed_jobs, PPrint (hd (failed s))], Exited 1)
            else Some (trace s @ [Print All_completed], Returned))"
proof (cases "failed s")
  case Nil
  with assms show ?thesis by (simp add: main_def initial_def)
next
  case (Cons job rest)
  with assms show ?thesis by (simp add: main_def initial_def)
qed

text \<open>
  C7, at a run where the code departs from it: two jobs, each complete with no success.
  Both are on the failed list when the active set empties, and the run exits with
  status 1, but \<open>sys.exit(1)\<close> stands inside the loop over the failed jobs: the details of
  the first job are printed and those of the second are not.
\<close>

theorem only_first_failed_job_printed:
  "main \<lparr>RETRIES = 24, RETRY_DELAY = ()\<rparr> ''ns'' (\<lambda>k n. Inr (pending_job n))
     [complete_job ''a'' 0, complete_job ''b'' 0] =
   Some ([Print (Checking_jobs 2),
          Print (Checking_job ''a''), Print (Job_failed ''a''),
          Print (Checking_job ''b''), Print (Job_failed ''b''),
          Print Failed_jobs, PPrint (complete_job ''a'' 0)],
         Exited 1)"
  by (simp add: main_def poll_loop.simps poll_round_def classify_step_def check_success_def
      complete_job_def is_condition_complete_def)

section \<open>Dirty modules: what is returned\<close>

lemma module_of_no_sep: "path_sep \<notin> set (module_of f)"
  unfolding module_of_def by (induction f) auto

lemma path_join_module:
  "module_of f \<noteq> [] \<Longrightarrow> b \<noteq> [] \<Longrightarrow> hd b \<noteq> path_sep \<Longrightarrow>
     path_join (module_of f) b = module_of f @ [path_sep] @ b"
proof -
  assume ne: "module_of f \<noteq> []" and b: "b \<noteq> []" "hd b \<noteq> path_sep"
  from last_in_set [OF ne] module_of_no_sep [of f] have "last (module_of f) \<noteq> path_sep"
    by metis
  with ne b show ?thesis by (simp add: path_join_def)
qed







section \<open>A failing status query\<close>

lemma refresh_Inl:
  "\<forall>i<length before. \<exists>j. get (calls s + i) (metadata_name (fst (before ! i))) = Inr j \<Longrightarrow>
   get (calls s + length before) (metadata_name job) = Inl e \<Longrightarrow>
   refresh get (before @ (job, retries) # rest) s =
     Inl (e, trace s @ map Get (names before) @ [Get (metadata_name job)])"
proof (induction before arbitrary: s)
  case Nil
  then show ?case by (simp add: names_def)
next
  case (Cons x xs)
  obtain xj xr where x: "x = (xj, xr)" by (cases x)
  from Cons.prems(1) have "\<exists>j. get (calls s + 0) (metadata_name (fst ((x # xs) ! 0))) = Inr j"
    by blast
  with x obtain j where j: "get (calls s) (metadata_name xj) = Inr j" by auto
  let ?s1 = "s\<lparr>items := items s @ [(j, xr)], calls := Suc (calls s),
               trace := trace s @ [Get (metadata_name xj)]\<rparr>"
  have a: "\<forall>i<length xs. \<exists>j. get (calls ?s1 + i) (metadata_name (fst (xs ! i))) = Inr j"
  proof (intro allI impI)
    fix i assume "i < length xs"
    then have "Suc i < length (x # xs)" by simp
    with Cons.prems(1)
    have "\<exists>j. get (calls s + Suc i) (metadata_name (fst ((x # xs) ! Suc i))) = Inr j"
      by blast
    then show "\<exists>j. get (calls ?s1 + i) (metadata_name (fst (xs ! i))) = Inr j" by simp
  qed
  from Cons.prems(2) have b: "get (calls ?s1 + length xs) (metadata_name job) = Inl e"
    by simp
  from Cons.IH [OF a b] x j show ?case by (simp add: names_def)
qed

lemma poll_round_Inl:
  assumes "map decremented (filter stays (items s)) = before @ (job, retries) # rest"
    and "\<forall>i<length before. \<exists>j. get (calls s + i) (metadata_name (fst (before ! i))) = Inr j"
    and "get (calls s + length before) (metadata_name job) = Inl e"
  shows "poll_round cfg namespace get s =
     Inl (e, trace s @ [Print (Checking_jobs (length (items s)))] @
             concat (map (step_out namespace) (items s)) @
             [Print Still_waiting, Sleep (RETRY_DELAY cfg)] @
             map Get (names before) @ [Get (metadata_name job)])"
proof -
  let ?s1 = "s\<lparr>items := [],
               failed := failed s @ map fst (filter fails (items s)),
               trace := (trace s @ [Print (Checking_jobs (length (items s)))] @
                        concat (map (step_out namespace) (items s))) @
                       [Print Still_waiting, Sleep (RETRY_DELAY cfg)]\<rparr>"
  from assms(1) have ne: "filter stays (items s) \<noteq> []" by auto
  with assms(1) have "poll_round cfg namespace get s =
      refresh get (before @ (job, retries) # rest) ?s1"
    by (simp add: poll_round_def fold_classify_step)
  moreover from assms(2,3) have "refresh get (before @ (job, retries) # rest) ?s1 =
     Inl (e, trace ?s1 @ map Get (names before) @ [Get (metadata_name job)])"
    by (intro refresh_Inl) simp_all
  ultimately show ?thesis by simp
qed

text \<open>
  C8, as the code has it. \<open>main\<close> catches nothing. When, in some pass, the status query for
  a job that remains pending fails, the queries for the jobs before it in that pass having
  been answered, the error is raised out of \<open>main\<close>: the run ends with that error and exit
  status 1, and its output ends with that query, so the jobs after it are not fetched, no
  retry is consumed for the failure and no further pass is made.
\<close>

theorem fetch_error_aborts:
  assumes "rounds cfg namespace get n (initial cfg jobs) = Inr s"
    and "map decremented (filter stays (items s)) = before @ (job, retries) # rest"
    and "\<forall>i<length before. \<exists>j. get (calls s + i) (metadata_name (fst (before ! i))) = Inr j"
    and "get (calls s + length before) (metadata_name job) = Inl e"
  shows "main cfg namespace get jobs =
           Some (trace s @ [Print (Checking_jobs (length (items s)))] @
                 concat (map (step_out namespace) (items s)) @
                 [Print Still_waiting, Sleep (RETRY_DELAY cfg)] @
                 map Get (names before) @ [Get (metadata_name job)],
                 Raised e) \<and>
         exit_code (Raised e) = 1"
proof -
  let ?out = "trace s @ [Print (Checking_jobs (length (items s)))] @
                 concat (map (step_out namespace) (items s)) @
                 [Print Still_waiting, Sleep (RETRY_DELAY cfg)] @
                 map Get (names before) @ [Get (metadata_name job)]"
  from assms(2) have ne: "items s \<noteq> []" by auto
  have jobs: "jobs \<noteq> []"
  proof
    assume "jobs = []"
    then have "items (initial cfg jobs) = []" by (simp add: initial_def)
    from rounds_empty [OF this] assms(1) have "s = initial cfg jobs" by simp
    with \<open>items (initial cfg jobs) = []\<close> ne show False by simp
  qed
  from poll_round_Inl [OF assms(2,3,4)]
  have "poll_round cfg namespace get s = Inl (e, ?out)" .
  with rounds_Suc_last [OF assms(1)] ne
  have "rounds cfg namespace get (Suc n) (initial cfg jobs) = Inl (e, ?out)" by simp
  from poll_loop_finished [OF _ this]
  have "poll_loop cfg namespace get (initial cfg jobs) = Some (Inl (e, ?out))" by simp
  with jobs show ?thesis by (simp add: main_def initial_def)
qed

theorem fetch_error_aborts_witness:
  "rounds \<lparr>RETRIES = 24, RETRY_DELAY = ()\<rparr> ''ns''
     (\<lambda>k n. if k = 1 then Inl NotFound else Inr (pending_job n)) 0
     (initial \<lparr>RETRIES = 24, RETRY_DELAY = ()\<rparr> [pending_job ''a'', pending_job ''b'']) =
     Inr (initial \<lparr>RETRIES = 24, RETRY_DELAY = ()\<rparr> [pending_job ''a'', pending_job ''b'']) \<and>
   main \<lparr>RETRIES = 24, RETRY_DELAY = ()\<rparr> ''ns''
     (\<lambda>k n. if k = 1 then Inl NotFound else Inr (pending_job n))
     [pending_job ''a'', pending_job ''b''] =
   Some ([Print (Checking_jobs 2),
          Print (Checking_job ''a''), Print (No_conditions ''ns'' ''a'' 24),
          Print (Checking_job ''b''), Print (No_conditions ''ns'' ''b'' 24),
          Print Still_waiting, Sleep (), Get ''a'', Get ''b''],
         Raised NotFound) \<and>
   exit_code (Raised NotFound) = 1"
proof -
  let ?cfg = "\<lparr>RETRIES = 24, RETRY_DELAY = ()\<rparr>"
  let ?get = "\<lambda>(k::nat) (n::string). if k = 1 then Inl NotFound else Inr (pending_job n)"
  let ?jobs = "[pending_job ''a'', pending_job ''b'']"
  have h1: "rounds ?cfg ''ns'' ?get 0 (initial ?cfg ?jobs) = Inr (initial ?cfg ?jobs)"
    by simp
  have h2: "map decremented (filter stays (items (initial ?cfg ?jobs))) =
      [(pending_job ''a'', 23)] @ (pending_job ''b'', 23) # []"
    by (simp add: initial_def stays_def decremented_def job_complete_def pending_job_def)
  have h3: "\<forall>i<length [(pending_job ''a'', 23::int)].
      \<exists>j. ?get (calls (initial ?cfg ?jobs) + i)
             (metadata_name (fst ([(pending_job ''a'', 23::int)] ! i))) = Inr j"
    by (simp add: initial_def)
  have h4: "?get (calls (initial ?cfg ?jobs) + length [(pending_job ''a'', 23::int)])
      (metadata_name (pending_job ''b'')) = Inl NotFound"
    by (simp add: initial_def)
  from fetch_error_aborts [OF h1 h2 h3 h4] h1
  show ?thesis
    by (simp add: initial_def step_out_def check_success_def names_def pending_job_def)
qed

text \<open>
  A single timeout, on the first status query of a run with two pending jobs and 24
  attempts each: the run ends with the error raised, and the second job is not fetched.
\<close>

theorem fetch_error_counterexample:
  "main \<lparr>RETRIES = 24, RETRY_DELAY = ()\<rparr> ''ns''
     (\<lambda>k n. if k = 0 then Inl Timeout else Inr (pending_job n))
     [pending_job ''a'', pending_job ''b''] =
   Some ([Print (Checking_jobs 2),
          Print (Checking_job ''a''), Print (No_conditions ''ns'' ''a'' 24),
          Print (Checking_job ''b''), Print (No_conditions ''ns'' ''b'' 24),
          Print Still_waiting, Sleep (), Get ''a''],
         Raised Timeout)"
  by (simp add: main_def poll_loop.simps poll_round_def classify_step_def check_success_def
      pending_job_def)

section \<open>Sleeping and fetching again\<close>







end
